theory Spec2Isabelle
  imports Complex_Main
begin

section \<open>The external PV client library\<close>

text \<open>
  \<^verbatim>\<open>src/lib/device.py\<close> uses three operations of the \<^verbatim>\<open>epics\<close> module and nothing
  else: the constructor \<^verbatim>\<open>epics.PV(pvname)\<close> and the methods \<^verbatim>\<open>put(value, wait=, timeout=)\<close>
  and \<^verbatim>\<open>get(as_string=)\<close> of the object it returns. What these do is the library's
  business, so the library is a parameter of the model: a record of three functions over a
  library state \<open>'w\<close> (connections, channel values, whatever the library keeps). Each
  one either raises (\<open>Inl\<close> of an exception \<open>'e\<close>) or returns (\<open>Inr\<close>), and hands back the
  library state it leaves behind.

  \<open>'h\<close> is the type of references to PV objects: two handles are the identical
  instance exactly when they are equal as references. \<open>'v\<close> is the type of the Python
  values written, read and returned. A timeout is a Python float, of which the model only
  needs the literal \<^verbatim>\<open>10.0\<close> and that it is passed on; it is a \<^typ>\<open>real\<close>.
\<close>

record ('w, 'e, 'h, 'v) epics =
  epics_PV :: "string \<Rightarrow> 'w \<Rightarrow> ('e + 'h) \<times> 'w"
  PV_put :: "'h \<Rightarrow> 'v \<Rightarrow> bool \<Rightarrow> real \<Rightarrow> 'w \<Rightarrow> ('e + 'v) \<times> 'w"
  PV_get :: "'h \<Rightarrow> bool \<Rightarrow> 'w \<Rightarrow> ('e + 'v) \<times> 'w"

text \<open>
  Every call that leaves the Device for the library is recorded with its arguments and
  its outcome, in the order of the calls. The record of calls is how the theorems below
  speak of what was requested from the library and how often.
\<close>

datatype ('e, 'h, 'v) call =
    NewPV string "'e + 'h"
  | PutPV 'h 'v bool real "'e + 'v"
  | GetPV 'h bool "'e + 'v"

record ('w, 'e, 'h, 'v) world =
  ext :: 'w
  calls :: "('e, 'h, 'v) call list"

definition new_PV ::
  "('w, 'e, 'h, 'v) epics \<Rightarrow> string \<Rightarrow> ('w, 'e, 'h, 'v) world
     \<Rightarrow> ('e + 'h) \<times> ('w, 'e, 'h, 'v) world" where
  "new_PV lib name w =
     (case epics_PV lib name (ext w) of
        (r, x) \<Rightarrow> (r, \<lparr>ext = x, calls = calls w @ [NewPV name r]\<rparr>))"

definition handle_put ::
  "('w, 'e, 'h, 'v) epics \<Rightarrow> 'h \<Rightarrow> 'v \<Rightarrow> bool \<Rightarrow> real \<Rightarrow> ('w, 'e, 'h, 'v) world
     \<Rightarrow> ('e + 'v) \<times> ('w, 'e, 'h, 'v) world" where
  "handle_put lib h val wait timeout w =
     (case PV_put lib h val wait timeout (ext w) of
        (r, x) \<Rightarrow> (r, \<lparr>ext = x, calls = calls w @ [PutPV h val wait timeout r]\<rparr>))"

definition handle_get ::
  "('w, 'e, 'h, 'v) epics \<Rightarrow> 'h \<Rightarrow> bool \<Rightarrow> ('w, 'e, 'h, 'v) world
     \<Rightarrow> ('e + 'v) \<times> ('w, 'e, 'h, 'v) world" where
  "handle_get lib h as_string w =
     (case PV_get lib h as_string (ext w) of
        (r, x) \<Rightarrow> (r, \<lparr>ext = x, calls = calls w @ [GetPV h as_string r]\<rparr>))"

text \<open>What a recorded call raised, if it raised, and the name a constructor call was for.\<close>

fun raised :: "('e, 'h, 'v) call \<Rightarrow> 'e option" where
  "raised (NewPV name (Inl e)) = Some e"
| "raised (PutPV h val wait timeout (Inl e)) = Some e"
| "raised (GetPV h as_string (Inl e)) = Some e"
| "raised _ = None"

fun constructs :: "string \<Rightarrow> ('e, 'h, 'v) call \<Rightarrow> bool" where
  "constructs name (NewPV n r) = (n = name)"
| "constructs name _ = False"

section \<open>The Device class\<close>

text \<open>
  The two attributes of a Device: \<^verbatim>\<open>self.__prefix__\<close>, a string or \<^verbatim>\<open>None\<close>, and the
  dictionary \<^verbatim>\<open>self._pvs\<close> from PV names to handles.
\<close>

record 'h Device =
  prefix :: "string option"
  pvs :: "string \<rightharpoonup> 'h"

text \<open>
  The local variable \<^verbatim>\<open>pvname\<close> of \<^verbatim>\<open>Device.PV\<close>: \<^verbatim>\<open>attr\<close>, or
  \<^verbatim>\<open>"%s%s" % (self.__prefix__, attr)\<close> when the prefix is not \<^verbatim>\<open>None\<close>. On two
  strings the format is their concatenation.
\<close>

definition pvname :: "'h Device \<Rightarrow> string \<Rightarrow> string" where
  "pvname self attr = (case prefix self of None \<Rightarrow> attr | Some p \<Rightarrow> p @ attr)"

text \<open>
  \<^verbatim>\<open>Device.PV(attr)\<close>. The method mutates \<^verbatim>\<open>self._pvs\<close> and may raise, so the model
  returns the outcome together with the Device and the world after the call. In
  \<^verbatim>\<open>self._pvs[pvname] = epics.PV(pvname)\<close> the right-hand side is evaluated first: when
  the constructor raises, the assignment does not happen.
\<close>

definition PV ::
  "('w, 'e, 'h, 'v) epics \<Rightarrow> 'h Device \<Rightarrow> string \<Rightarrow> ('w, 'e, 'h, 'v) world
     \<Rightarrow> ('e + 'h) \<times> 'h Device \<times> ('w, 'e, 'h, 'v) world" where
  "PV lib self attr w =
     (let name = pvname self attr in
      case pvs self name of
        Some h \<Rightarrow> (Inr h, self, w)
      | None \<Rightarrow>
          (case new_PV lib name w of
             (Inl e, w') \<Rightarrow> (Inl e, self, w')
           | (Inr h, w') \<Rightarrow> (Inr h, self\<lparr>pvs := (pvs self)(name \<mapsto> h)\<rparr>, w')))"

text \<open>
  \<^verbatim>\<open>Device.put(attr, value, wait=False, timeout=10.0)\<close> and
  \<^verbatim>\<open>Device.get(attr, as_string=False)\<close>. A keyword argument the caller leaves out is
  \<open>None\<close> here and takes the default of the signature.
\<close>

definition put ::
  "('w, 'e, 'h, 'v) epics \<Rightarrow> 'h Device \<Rightarrow> string \<Rightarrow> 'v \<Rightarrow> bool option \<Rightarrow> real option
     \<Rightarrow> ('w, 'e, 'h, 'v) world \<Rightarrow> ('e + 'v) \<times> 'h Device \<times> ('w, 'e, 'h, 'v) world" where
  "put lib self attr val wait_kw timeout_kw w =
     (let wait = (case wait_kw of None \<Rightarrow> False | Some b \<Rightarrow> b);
          timeout = (case timeout_kw of None \<Rightarrow> 10 | Some t \<Rightarrow> t)
      in case PV lib self attr w of
           (Inl e, self', w') \<Rightarrow> (Inl e, self', w')
         | (Inr h, self', w') \<Rightarrow>
             (case handle_put lib h val wait timeout w' of (r, w'') \<Rightarrow> (r, self', w'')))"

definition get ::
  "('w, 'e, 'h, 'v) epics \<Rightarrow> 'h Device \<Rightarrow> string \<Rightarrow> bool option
     \<Rightarrow> ('w, 'e, 'h, 'v) world \<Rightarrow> ('e + 'v) \<times> 'h Device \<times> ('w, 'e, 'h, 'v) world" where
  "get lib self attr as_string_kw w =
     (let as_string = (case as_string_kw of None \<Rightarrow> False | Some b \<Rightarrow> b)
      in case PV lib self attr w of
           (Inl e, self', w') \<Rightarrow> (Inl e, self', w')
         | (Inr h, self', w') \<Rightarrow>
             (case handle_get lib h as_string w' of (r, w'') \<Rightarrow> (r, self', w'')))"

text \<open>
  \<^verbatim>\<open>Device.__init__(prefix=None, attrs=None)\<close>. \<open>preload\<close> is the loop
  \<^verbatim>\<open>for p in attrs: self.PV(p)\<close>; an exception of \<^verbatim>\<open>self.PV\<close> leaves the loop and
  the constructor, and the caller gets no Device.
\<close>

fun preload ::
  "('w, 'e, 'h, 'v) epics \<Rightarrow> 'h Device \<Rightarrow> string list \<Rightarrow> ('w, 'e, 'h, 'v) world
     \<Rightarrow> ('e + 'h Device) \<times> ('w, 'e, 'h, 'v) world" where
  "preload lib self [] w = (Inr self, w)"
| "preload lib self (p # ps) w =
     (case PV lib self p w of
        (Inl e, self', w') \<Rightarrow> (Inl e, w')
      | (Inr h, self', w') \<Rightarrow> preload lib self' ps w')"

definition Device_init ::
  "('w, 'e, 'h, 'v) epics \<Rightarrow> string option \<Rightarrow> string list option \<Rightarrow> ('w, 'e, 'h, 'v) world
     \<Rightarrow> ('e + 'h Device) \<times> ('w, 'e, 'h, 'v) world" where
  "Device_init lib prefix_arg attrs w =
     (let self = \<lparr>prefix = prefix_arg, pvs = Map.empty\<rparr>
      in case attrs of
           None \<Rightarrow> (Inr self, w)
         | Some ps \<Rightarrow> preload lib self ps w)"

section \<open>A client of one Device\<close>

text \<open>
  A client makes method calls on one Device, one after the other. An exception of a call
  is not caught by anything in \<^verbatim>\<open>device.py\<close>, so it ends the run and is what the
  client sees; the Device object and the library are left as they were at that moment.
\<close>

datatype 'v request =
    CallPV string
  | CallPut string 'v "bool option" "real option"
  | CallGet string "bool option"

definition exception :: "'e + 'a \<Rightarrow> 'e option" where
  "exception r = (case r of Inl e \<Rightarrow> Some e | Inr y \<Rightarrow> None)"

fun perform ::
  "('w, 'e, 'h, 'v) epics \<Rightarrow> 'h Device \<Rightarrow> 'v request \<Rightarrow> ('w, 'e, 'h, 'v) world
     \<Rightarrow> 'e option \<times> 'h Device \<times> ('w, 'e, 'h, 'v) world" where
  "perform lib self (CallPV attr) w =
     (case PV lib self attr w of (r, self', w') \<Rightarrow> (exception r, self', w'))"
| "perform lib self (CallPut attr val wait_kw timeout_kw) w =
     (case put lib self attr val wait_kw timeout_kw w of
        (r, self', w') \<Rightarrow> (exception r, self', w'))"
| "perform lib self (CallGet attr as_string_kw) w =
     (case get lib self attr as_string_kw w of (r, self', w') \<Rightarrow> (exception r, self', w'))"

fun run ::
  "('w, 'e, 'h, 'v) epics \<Rightarrow> 'h Device \<Rightarrow> 'v request list \<Rightarrow> ('w, 'e, 'h, 'v) world
     \<Rightarrow> 'e option \<times> 'h Device \<times> ('w, 'e, 'h, 'v) world" where
  "run lib self [] w = (None, self, w)"
| "run lib self (rq # rqs) w =
     (case perform lib self rq w of
        (Some e, self', w') \<Rightarrow> (Some e, self', w')
      | (None, self', w') \<Rightarrow> run lib self' rqs w')"

text \<open>The library calls recorded between two worlds, the later one second.\<close>

definition since ::
  "('w, 'e, 'h, 'v) world \<Rightarrow> ('w, 'e, 'h, 'v) world \<Rightarrow> ('e, 'h, 'v) call list" where
  "since w w' = drop (length (calls w)) (calls w')"

text \<open>
  \<open>propagated out cs\<close>: of the library calls \<open>cs\<close> made by an operation whose outcome for
  the caller was \<open>out\<close> (\<open>Some e\<close> when it raised \<open>e\<close>), none but the last raised, and what
  the last one raised is the outcome. So an exception of the library is the caller's
  exception, no library call follows a call that raised, and the caller sees no
  exception that the library did not raise.
\<close>

fun propagated :: "'e option \<Rightarrow> ('e, 'h, 'v) call list \<Rightarrow> bool" where
  "propagated out [] = (out = None)"
| "propagated out [c] = (raised c = out)"
| "propagated out (c # cs) = (raised c = None \<and> propagated out cs)"

text \<open>How many of the calls \<open>cs\<close> are constructor calls for \<open>name\<close>.\<close>

definition constructions :: "string \<Rightarrow> ('e, 'h, 'v) call list \<Rightarrow> nat" where
  "constructions name cs = length (filter (constructs name) cs)"

text \<open>
  Two calls \<^verbatim>\<open>self.PV(attr)\<close> one after the other: the outcome of each, and how many
  constructor calls for the name of \<open>attr\<close> the library saw from the start of the first
  to the end of the second.
\<close>

definition twice ::
  "('w, 'e, 'h, 'v) epics \<Rightarrow> 'h Device \<Rightarrow> string \<Rightarrow> ('w, 'e, 'h, 'v) world
     \<Rightarrow> ('e + 'h) \<times> ('e + 'h) \<times> nat" where
  "twice lib self attr w =
     (case PV lib self attr w of
        (r1, self1, w1) \<Rightarrow>
          (case PV lib self1 attr w1 of
             (r2, self2, w2) \<Rightarrow> (r1, r2, constructions (pvname self attr) (since w w2))))"

section \<open>A fake library\<close>

text \<open>
  A stand-in for the \<^verbatim>\<open>epics\<close> module, for running the model on concrete inputs. Its
  state is the number of PV objects made so far, and the next object's reference is that
  number. The constructor refuses the empty name; a write that waits with no time to
  wait times out; a read answers with the reference it was made on and the format asked
  for.
\<close>

datatype fake_error = InvalidName | TimedOut

datatype fake_value = Number int | Reading nat bool

definition fake :: "(nat, fake_error, nat, fake_value) epics" where
  "fake =
     \<lparr>epics_PV = (\<lambda>name n. if name = [] then (Inl InvalidName, n) else (Inr n, Suc n)),
      PV_put = (\<lambda>h val wait timeout n.
         if wait \<and> timeout \<le> 0 then (Inl TimedOut, n) else (Inr (Number 1), n)),
      PV_get = (\<lambda>h as_string n. (Inr (Reading h as_string), n))\<rparr>"

definition start :: "(nat, fake_error, nat, fake_value) world" where
  "start = \<lparr>ext = 0, calls = []\<rparr>"

text \<open>
  The Device \<^verbatim>\<open>epics.Device('13IDC:str:', attrs=('EraseStart', 'StopAll'))\<close> of the
  class docstring as the fake library makes it, the world its construction leaves behind,
  and a Device without prefix or cached handles.
\<close>

definition struck :: "nat Device" where
  "struck = \<lparr>prefix = Some ''13IDC:str:'',
     pvs = [''13IDC:str:EraseStart'' \<mapsto> 0, ''13IDC:str:StopAll'' \<mapsto> 1]\<rparr>"

definition struck_made :: "(nat, fake_error, nat, fake_value) world" where
  "struck_made = \<lparr>ext = 2, calls =
     [NewPV ''13IDC:str:EraseStart'' (Inr 0), NewPV ''13IDC:str:StopAll'' (Inr 1)]\<rparr>"

definition bare :: "nat Device" where
  "bare = \<lparr>prefix = None, pvs = Map.empty\<rparr>"

text \<open>A client run on the fake library that ends in a timeout of the second call.\<close>

definition impatient :: "fake_value request list" where
  "impatient =
     [CallPV ''13IDC:m1.VAL'',
      CallPut ''13IDC:m1.VAL'' (Number 2) (Some True) (Some 0),
      CallGet ''13IDC:m3.DIR'' (Some True)]"

text \<open>A Device constructed with the empty string as prefix, with one handle cached.\<close>

definition unprefixed :: "nat Device" where
  "unprefixed = \<lparr>prefix = Some [], pvs = [''13IDC:m1.VAL'' \<mapsto> 0]\<rparr>"

section \<open>Basic facts about the methods\<close>

text \<open>What \<open>PV\<close> does on a cached and on a new name, and what it leaves alone.\<close>

lemma PV_hit: "pvs self (pvname self attr) = Some h \<Longrightarrow> PV lib self attr w = (Inr h, self, w)"
  by (simp add: PV_def)

lemma PV_miss:
  "pvs self (pvname self attr) = None \<Longrightarrow>
   PV lib self attr w =
     (case epics_PV lib (pvname self attr) (ext w) of
        (Inl e, x) \<Rightarrow>
          (Inl e, self, \<lparr>ext = x, calls = calls w @ [NewPV (pvname self attr) (Inl e)]\<rparr>)
      | (Inr h, x) \<Rightarrow>
          (Inr h, self\<lparr>pvs := (pvs self)(pvname self attr \<mapsto> h)\<rparr>,
           \<lparr>ext = x, calls = calls w @ [NewPV (pvname self attr) (Inr h)]\<rparr>))"
  by (simp add: PV_def new_PV_def Let_def split: prod.splits sum.splits)

lemma PV_prefix: "PV lib self attr w = (r, self', w') \<Longrightarrow> prefix self' = prefix self"
  by (auto simp: PV_def Let_def split: option.splits prod.splits sum.splits)

lemma PV_other:
  "PV lib self attr w = (r, self', w') \<Longrightarrow> name \<noteq> pvname self attr \<Longrightarrow> pvs self' name = pvs self name"
  by (auto simp: PV_def Let_def split: option.splits prod.splits sum.splits)

lemma PV_keeps:
  "PV lib self attr w = (r, self', w') \<Longrightarrow> pvs self name = Some h \<Longrightarrow> pvs self' name = Some h"
  by (auto simp: PV_def Let_def split: option.splits prod.splits sum.splits)

lemma PV_cached:
  "PV lib self attr w = (Inr h, self', w') \<Longrightarrow> pvs self' (pvname self attr) = Some h"
  by (auto simp: PV_def Let_def split: option.splits prod.splits sum.splits)

lemma PV_calls:
  "PV lib self attr w = (r, self', w') \<Longrightarrow>
   (case pvs self (pvname self attr) of
      Some h \<Rightarrow> r = Inr h \<and> self' = self \<and> w' = w
    | None \<Rightarrow> calls w' = calls w @ [NewPV (pvname self attr) r] \<and>
        epics_PV lib (pvname self attr) (ext w) = (r, ext w'))"
  by (auto simp: PV_def new_PV_def Let_def split: option.splits prod.splits sum.splits)

text \<open>\<open>put\<close> and \<open>get\<close> are \<open>PV\<close> followed by one call on the handle.\<close>

lemma put_unfold:
  "put lib self attr val wait_kw timeout_kw w = (r, self', w') \<Longrightarrow>
   (PV lib self attr w = (r', self1, w1) \<Longrightarrow> 
     self' = self1 \<and> (case r' of Inl e \<Rightarrow> r = Inl e \<and> w' = w1
       | Inr h \<Rightarrow> handle_put lib h val (case wait_kw of None \<Rightarrow> False | Some b \<Rightarrow> b)
           (case timeout_kw of None \<Rightarrow> 10 | Some t \<Rightarrow> t) w1 = (r, w')))"
  by (auto simp: put_def Let_def split: prod.splits sum.splits)

lemma get_unfold:
  "get lib self attr as_string_kw w = (r, self', w') \<Longrightarrow>
   (PV lib self attr w = (r', self1, w1) \<Longrightarrow> 
     self' = self1 \<and> (case r' of Inl e \<Rightarrow> r = Inl e \<and> w' = w1
       | Inr h \<Rightarrow> handle_get lib h (case as_string_kw of None \<Rightarrow> False | Some b \<Rightarrow> b) w1 = (r, w')))"
  by (auto simp: get_def Let_def split: prod.splits sum.splits)

lemma put_device:
  "put lib self attr val wait_kw timeout_kw w = (r, self', w') \<Longrightarrow>
   \<exists>r1 w1. PV lib self attr w = (r1, self', w1)"
  by (auto simp: put_def Let_def split: prod.splits sum.splits)

lemma get_device:
  "get lib self attr as_string_kw w = (r, self', w') \<Longrightarrow>
   \<exists>r1 w1. PV lib self attr w = (r1, self', w1)"
  by (auto simp: get_def Let_def split: prod.splits sum.splits)

lemma perform_device:
  "perform lib self rq w = (out, self', w') \<Longrightarrow>
   \<exists>attr r1 w1. PV lib self attr w = (r1, self', w1)"
  by (cases rq) (auto split: prod.splits dest!: put_device get_device)

text \<open>What holds of every step holds of a run, by induction on the calls made.\<close>

lemma run_prefix: "run lib self rqs w = (out, self', w') \<Longrightarrow> prefix self' = prefix self"
proof (induction rqs arbitrary: self w)
  case Nil
  then show ?case by simp
next
  case (Cons rq rqs)
  obtain o1 s1 w1 where step: "perform lib self rq w = (o1, s1, w1)"
    by (cases "perform lib self rq w") auto
  from perform_device [OF step] have p1: "prefix s1 = prefix self"
    by (auto dest: PV_prefix)
  show ?case
  proof (cases o1)
    case None
    with Cons.prems step have "run lib s1 rqs w1 = (out, self', w')" by simp
    from Cons.IH [OF this] p1 show ?thesis by simp
  next
    case (Some e)
    with Cons.prems step p1 show ?thesis by simp
  qed
qed

lemma run_keeps:
  "run lib self rqs w = (out, self', w') \<Longrightarrow> pvs self name = Some h \<Longrightarrow> pvs self' name = Some h"
proof (induction rqs arbitrary: self w)
  case Nil
  then show ?case by simp
next
  case (Cons rq rqs)
  obtain o1 s1 w1 where step: "perform lib self rq w = (o1, s1, w1)"
    by (cases "perform lib self rq w") auto
  from perform_device [OF step] Cons.prems(2) have k1: "pvs s1 name = Some h"
    by (auto dest: PV_keeps)
  show ?case
  proof (cases o1)
    case None
    with Cons.prems step have "run lib s1 rqs w1 = (out, self', w')" by simp
    from Cons.IH [OF this k1] show ?thesis .
  next
    case (Some e)
    with Cons.prems step k1 show ?thesis by simp
  qed
qed

subsection \<open>The calls an operation makes\<close>

text \<open>
  Calls that did not raise, in front of calls that are propagated, leave them propagated;
  each operation appends its calls to the record and propagates them.
\<close>

lemma propagated_skip: "raised c = None \<Longrightarrow> propagated out (c # cs) = propagated out cs"
  by (cases cs) auto

lemma propagated_append:
  "propagated None cs1 \<Longrightarrow> propagated out (cs1 @ cs2) = propagated out cs2"
proof (induction cs1)
  case Nil
  then show ?case by simp
next
  case (Cons c cs1)
  from Cons.prems have c: "raised c = None" by (cases cs1) auto
  with Cons.prems have "propagated None cs1" by (simp add: propagated_skip)
  with Cons.IH c show ?case by (simp add: propagated_skip)
qed

lemma raised_NewPV [simp]: "raised (NewPV name r) = exception r"
  by (cases r) (simp_all add: exception_def)

lemma raised_PutPV [simp]: "raised (PutPV h val wait timeout r) = exception r"
  by (cases r) (simp_all add: exception_def)

lemma raised_GetPV [simp]: "raised (GetPV h as_string r) = exception r"
  by (cases r) (simp_all add: exception_def)

lemma PV_trace:
  "PV lib self attr w = (r, self', w') \<Longrightarrow>
   \<exists>cs. calls w' = calls w @ cs \<and> propagated (exception r) cs"
  by (auto simp: PV_def new_PV_def Let_def exception_def split: option.splits prod.splits sum.splits)

lemma put_trace:
  "put lib self attr val wait_kw timeout_kw w = (r, self', w') \<Longrightarrow>
   \<exists>cs. calls w' = calls w @ cs \<and> propagated (exception r) cs"
proof -
  assume a: "put lib self attr val wait_kw timeout_kw w = (r, self', w')"
  obtain r1 s1 w1 where pv: "PV lib self attr w = (r1, s1, w1)"
    by (cases "PV lib self attr w") auto
  from PV_trace [OF pv] obtain cs1 where cs1: "calls w1 = calls w @ cs1" "propagated (exception r1) cs1"
    by blast
  show ?thesis
  proof (cases r1)
    case (Inl e)
    with put_unfold [OF a pv] cs1 show ?thesis by (auto simp: exception_def)
  next
    case (Inr h)
    with put_unfold [OF a pv] obtain wt t where "handle_put lib h val wt t w1 = (r, w')" by auto
    then have "calls w' = calls w1 @ [PutPV h val wt t r]"
      by (auto simp: handle_put_def split: prod.splits)
    with cs1 Inr have "calls w' = calls w @ (cs1 @ [PutPV h val wt t r])"
      "propagated (exception r) (cs1 @ [PutPV h val wt t r])"
      by (simp_all add: propagated_append exception_def)
    then show ?thesis by blast
  qed
qed

lemma get_trace:
  "get lib self attr as_string_kw w = (r, self', w') \<Longrightarrow>
   \<exists>cs. calls w' = calls w @ cs \<and> propagated (exception r) cs"
proof -
  assume a: "get lib self attr as_string_kw w = (r, self', w')"
  obtain r1 s1 w1 where pv: "PV lib self attr w = (r1, s1, w1)"
    by (cases "PV lib self attr w") auto
  from PV_trace [OF pv] obtain cs1 where cs1: "calls w1 = calls w @ cs1" "propagated (exception r1) cs1"
    by blast
  show ?thesis
  proof (cases r1)
    case (Inl e)
    with get_unfold [OF a pv] cs1 show ?thesis by (auto simp: exception_def)
  next
    case (Inr h)
    with get_unfold [OF a pv] obtain s where "handle_get lib h s w1 = (r, w')" by auto
    then have "calls w' = calls w1 @ [GetPV h s r]"
      by (auto simp: handle_get_def split: prod.splits)
    with cs1 Inr have "calls w' = calls w @ (cs1 @ [GetPV h s r])"
      "propagated (exception r) (cs1 @ [GetPV h s r])"
      by (simp_all add: propagated_append exception_def)
    then show ?thesis by blast
  qed
qed

lemma perform_trace:
  "perform lib self rq w = (out, self', w') \<Longrightarrow>
   \<exists>cs. calls w' = calls w @ cs \<and> propagated out cs"
  by (cases rq) (auto split: prod.splits dest: PV_trace put_trace get_trace)

lemma run_trace:
  "run lib self rqs w = (out, self', w') \<Longrightarrow>
   \<exists>cs. calls w' = calls w @ cs \<and> propagated out cs"
proof (induction rqs arbitrary: self w)
  case Nil
  then show ?case by simp
next
  case (Cons rq rqs)
  obtain o1 s1 w1 where step: "perform lib self rq w = (o1, s1, w1)"
    by (cases "perform lib self rq w") auto
  from perform_trace [OF step] obtain cs1 where
    cs1: "calls w1 = calls w @ cs1" "propagated o1 cs1" by blast
  show ?case
  proof (cases o1)
    case None
    with Cons.prems step have "run lib s1 rqs w1 = (out, self', w')" by simp
    from Cons.IH [OF this] obtain cs2 where
      cs2: "calls w' = calls w1 @ cs2" "propagated out cs2" by blast
    from cs1 cs2 None have "calls w' = calls w @ (cs1 @ cs2)" "propagated out (cs1 @ cs2)"
      by (simp_all add: propagated_append)
    then show ?thesis by blast
  next
    case (Some e)
    with Cons.prems step cs1 show ?thesis by auto
  qed
qed

lemma preload_trace:
  "preload lib self ps w = (r, w') \<Longrightarrow>
   \<exists>cs. calls w' = calls w @ cs \<and> propagated (exception r) cs"
proof (induction ps arbitrary: self w)
  case Nil
  then show ?case by (auto simp: exception_def)
next
  case (Cons p ps)
  obtain r1 s1 w1 where pv: "PV lib self p w = (r1, s1, w1)"
    by (cases "PV lib self p w") auto
  from PV_trace [OF pv] obtain cs1 where
    cs1: "calls w1 = calls w @ cs1" "propagated (exception r1) cs1" by blast
  show ?case
  proof (cases r1)
    case (Inl e)
    with Cons.prems pv cs1 show ?thesis by (auto simp: exception_def)
  next
    case (Inr h)
    with Cons.prems pv have "preload lib s1 ps w1 = (r, w')" by simp
    from Cons.IH [OF this] obtain cs2 where
      cs2: "calls w' = calls w1 @ cs2" "propagated (exception r) cs2" by blast
    from cs1 cs2 Inr have "calls w' = calls w @ (cs1 @ cs2)"
      "propagated (exception r) (cs1 @ cs2)"
      by (simp_all add: propagated_append exception_def)
    then show ?thesis by blast
  qed
qed

lemma Device_init_trace:
  "Device_init lib prefix_arg attrs w = (r, w') \<Longrightarrow>
   \<exists>cs. calls w' = calls w @ cs \<and> propagated (exception r) cs"
  by (cases attrs) (auto simp: Device_init_def exception_def dest: preload_trace)

subsection \<open>Names\<close>

text \<open>The constructor stores its prefix; the exact calls of \<open>put\<close> and \<open>get\<close>.\<close>

lemma preload_prefix:
  "preload lib self ps w = (Inr self', w') \<Longrightarrow> prefix self' = prefix self"
proof (induction ps arbitrary: self w)
  case Nil
  then show ?case by simp
next
  case (Cons p ps)
  obtain r1 s1 w1 where pv: "PV lib self p w = (r1, s1, w1)"
    by (cases "PV lib self p w") auto
  show ?case
  proof (cases r1)
    case (Inl e)
    with Cons.prems pv show ?thesis by simp
  next
    case (Inr h)
    with Cons.prems pv have "preload lib s1 ps w1 = (Inr self', w')" by simp
    from Cons.IH [OF this] PV_prefix [OF pv] show ?thesis by simp
  qed
qed

lemma Device_init_prefix:
  "Device_init lib prefix_arg attrs w = (Inr self, w') \<Longrightarrow> prefix self = prefix_arg"
  by (cases attrs) (auto simp: Device_init_def dest: preload_prefix)

lemma put_calls:
  assumes "put lib self attr val wait_kw timeout_kw w = (r, self', w')"
    and "wait = (case wait_kw of None \<Rightarrow> False | Some b \<Rightarrow> b)"
    and "timeout = (case timeout_kw of None \<Rightarrow> 10 | Some t \<Rightarrow> t)"
  shows "case pvs self (pvname self attr) of
           Some h \<Rightarrow> calls w' = calls w @ [PutPV h val wait timeout r]
         | None \<Rightarrow>
             (case fst (epics_PV lib (pvname self attr) (ext w)) of
                Inl e \<Rightarrow> calls w' = calls w @ [NewPV (pvname self attr) (Inl e)] \<and> r = Inl e
              | Inr h \<Rightarrow> calls w' = calls w @
                  [NewPV (pvname self attr) (Inr h), PutPV h val wait timeout r])"
proof -
  obtain r1 s1 w1 where pv: "PV lib self attr w = (r1, s1, w1)"
    by (cases "PV lib self attr w") auto
  from put_unfold [OF assms(1) pv] PV_calls [OF pv] assms(2,3) show ?thesis
    by (auto simp: handle_put_def split: option.splits sum.splits prod.splits)
qed

lemma get_calls:
  assumes "get lib self attr as_string_kw w = (r, self', w')"
    and "as_string = (case as_string_kw of None \<Rightarrow> False | Some b \<Rightarrow> b)"
  shows "case pvs self (pvname self attr) of
           Some h \<Rightarrow> calls w' = calls w @ [GetPV h as_string r]
         | None \<Rightarrow>
             (case fst (epics_PV lib (pvname self attr) (ext w)) of
                Inl e \<Rightarrow> calls w' = calls w @ [NewPV (pvname self attr) (Inl e)] \<and> r = Inl e
              | Inr h \<Rightarrow> calls w' = calls w @
                  [NewPV (pvname self attr) (Inr h), GetPV h as_string r])"
proof -
  obtain r1 s1 w1 where pv: "PV lib self attr w = (r1, s1, w1)"
    by (cases "PV lib self attr w") auto
  from get_unfold [OF assms(1) pv] PV_calls [OF pv] assms(2) show ?thesis
    by (auto simp: handle_get_def split: option.splits sum.splits prod.splits)
qed

section \<open>Resolution of names\<close>

text \<open>
  C1. \<open>PV\<close> looks up, and when it is missing constructs, the handle of exactly
  \<open>prefix @ attr\<close> when the Device has a prefix and of \<open>attr\<close> itself when the prefix is
  \<open>None\<close>; the prefix of a Device is the one given to its constructor. On a cached name it
  returns the cached handle and calls nothing; on a new name its one library call is the
  constructor on that name. On a Device with prefix \<^verbatim>\<open>13IDC:str:\<close>,
  \<^verbatim>\<open>put('EraseStart', val)\<close> writes to the handle of \<^verbatim>\<open>13IDC:str:EraseStart\<close> and
  \<^verbatim>\<open>get('mca1')\<close> reads the handle of \<^verbatim>\<open>13IDC:str:mca1\<close>, constructing it under that
  name first when it is not cached.
\<close>

theorem PV_requests_prefix_plus_attr:
  "(Device_init lib prefix_arg attrs w0 = (Inr self0, w1) \<longrightarrow> prefix self0 = prefix_arg) \<and>
   (PV lib self attr w = (r, self', w') \<longrightarrow>
      (prefix self = Some p \<longrightarrow>
         (case pvs self (p @ attr) of
            Some h \<Rightarrow> r = Inr h \<and> w' = w
          | None \<Rightarrow> calls w' = calls w @ [NewPV (p @ attr) r] \<and>
              epics_PV lib (p @ attr) (ext w) = (r, ext w'))) \<and>
      (prefix self = None \<longrightarrow>
         (case pvs self attr of
            Some h \<Rightarrow> r = Inr h \<and> w' = w
          | None \<Rightarrow> calls w' = calls w @ [NewPV attr r] \<and>
              epics_PV lib attr (ext w) = (r, ext w')))) \<and>
   (prefix dev = Some ''13IDC:str:'' \<and>
    put lib dev ''EraseStart'' val None None w2 = (r3, dev3, w3) \<longrightarrow>
      (case pvs dev ''13IDC:str:EraseStart'' of
         Some h \<Rightarrow> calls w3 = calls w2 @ [PutPV h val False 10 r3]
       | None \<Rightarrow>
           (case fst (epics_PV lib ''13IDC:str:EraseStart'' (ext w2)) of
              Inl e \<Rightarrow> calls w3 = calls w2 @ [NewPV ''13IDC:str:EraseStart'' (Inl e)] \<and>
                r3 = Inl e
            | Inr h \<Rightarrow> calls w3 = calls w2 @
                [NewPV ''13IDC:str:EraseStart'' (Inr h), PutPV h val False 10 r3]))) \<and>
   (prefix dev = Some ''13IDC:str:'' \<and> get lib dev ''mca1'' None w4 = (r5, dev5, w5) \<longrightarrow>
      (case pvs dev ''13IDC:str:mca1'' of
         Some h \<Rightarrow> calls w5 = calls w4 @ [GetPV h False r5]
       | None \<Rightarrow>
           (case fst (epics_PV lib ''13IDC:str:mca1'' (ext w4)) of
              Inl e \<Rightarrow> calls w5 = calls w4 @ [NewPV ''13IDC:str:mca1'' (Inl e)] \<and> r5 = Inl e
            | Inr h \<Rightarrow> calls w5 = calls w4 @
                [NewPV ''13IDC:str:mca1'' (Inr h), GetPV h False r5])))"
  (is "?A \<and> (?B1 \<longrightarrow> ?B2) \<and> (?C1 \<longrightarrow> ?C2) \<and> (?D1 \<longrightarrow> ?D2)")
proof (intro conjI impI)
  assume "Device_init lib prefix_arg attrs w0 = (Inr self0, w1)"
  then show "prefix self0 = prefix_arg" by (rule Device_init_prefix)
next
  assume a: "PV lib self attr w = (r, self', w')" and p: "prefix self = Some p"
  from p have "pvname self attr = p @ attr" by (simp add: pvname_def)
  with PV_calls [OF a]
  show "case pvs self (p @ attr) of
            Some h \<Rightarrow> r = Inr h \<and> w' = w
          | None \<Rightarrow> calls w' = calls w @ [NewPV (p @ attr) r] \<and>
              epics_PV lib (p @ attr) (ext w) = (r, ext w')"
    by (auto split: option.splits)
next
  assume a: "PV lib self attr w = (r, self', w')" and p: "prefix self = None"
  from p have "pvname self attr = attr" by (simp add: pvname_def)
  with PV_calls [OF a]
  show "case pvs self attr of
            Some h \<Rightarrow> r = Inr h \<and> w' = w
          | None \<Rightarrow> calls w' = calls w @ [NewPV attr r] \<and>
              epics_PV lib attr (ext w) = (r, ext w')"
    by (auto split: option.splits)
next
  assume a: ?C1
  then have n: "pvname dev ''EraseStart'' = ''13IDC:str:EraseStart''"
    by (simp add: pvname_def)
  from a have "put lib dev ''EraseStart'' val None None w2 = (r3, dev3, w3)" by simp
  from put_calls [OF this, of False 10, unfolded n] show ?C2 by simp
next
  assume a: ?D1
  then have n: "pvname dev ''mca1'' = ''13IDC:str:mca1''"
    by (simp add: pvname_def)
  from a have "get lib dev ''mca1'' None w4 = (r5, dev5, w5)" by simp
  from get_calls [OF this, of False, unfolded n] show ?D2 by simp
qed

theorem PV_requests_prefix_plus_attr_witness:
  "Device_init fake (Some ''13IDC:str:'') (Some [''EraseStart'', ''StopAll'']) start
     = (Inr struck, struck_made) \<and>
   prefix struck = Some ''13IDC:str:'' \<and>
   PV fake struck ''ChannelAdvance'' struck_made =
     (Inr 2, struck\<lparr>pvs := (pvs struck)(''13IDC:str:ChannelAdvance'' \<mapsto> 2)\<rparr>,
      \<lparr>ext = 3, calls = calls struck_made @ [NewPV ''13IDC:str:ChannelAdvance'' (Inr 2)]\<rparr>) \<and>
   pvs struck (''13IDC:str:'' @ ''ChannelAdvance'') = None \<and>
   epics_PV fake (''13IDC:str:'' @ ''ChannelAdvance'') (ext struck_made) = (Inr 2, 3) \<and>
   prefix bare = None \<and>
   PV fake bare ''13IDC:m1.VAL'' start =
     (Inr 0, bare\<lparr>pvs := [''13IDC:m1.VAL'' \<mapsto> 0]\<rparr>,
      \<lparr>ext = 1, calls = [NewPV ''13IDC:m1.VAL'' (Inr 0)]\<rparr>) \<and>
   put fake struck ''EraseStart'' (Number 1) None None struck_made =
     (Inr (Number 1), struck,
      \<lparr>ext = 2, calls = calls struck_made @ [PutPV 0 (Number 1) False 10 (Inr (Number 1))]\<rparr>) \<and>
   pvs struck ''13IDC:str:EraseStart'' = Some 0 \<and>
   get fake struck ''mca1'' None struck_made =
     (Inr (Reading 2 False), struck\<lparr>pvs := (pvs struck)(''13IDC:str:mca1'' \<mapsto> 2)\<rparr>,
      \<lparr>ext = 3, calls = calls struck_made @
         [NewPV ''13IDC:str:mca1'' (Inr 2), GetPV 2 False (Inr (Reading 2 False))]\<rparr>) \<and>
   pvs struck ''13IDC:str:mca1'' = None"
proof -
  have init: "Device_init fake (Some ''13IDC:str:'') (Some [''EraseStart'', ''StopAll'']) start
     = (Inr struck, struck_made)"
    by (simp add: Let_def Device_init_def PV_def pvname_def new_PV_def fake_def start_def
        struck_def struck_made_def)
  have pv: "PV fake struck ''ChannelAdvance'' struck_made =
     (Inr 2, struck\<lparr>pvs := (pvs struck)(''13IDC:str:ChannelAdvance'' \<mapsto> 2)\<rparr>,
      \<lparr>ext = 3, calls = calls struck_made @ [NewPV ''13IDC:str:ChannelAdvance'' (Inr 2)]\<rparr>)"
    by (simp add: Let_def PV_def pvname_def new_PV_def fake_def struck_def struck_made_def)
  have pv0: "PV fake bare ''13IDC:m1.VAL'' start =
     (Inr 0, bare\<lparr>pvs := [''13IDC:m1.VAL'' \<mapsto> 0]\<rparr>,
      \<lparr>ext = 1, calls = [NewPV ''13IDC:m1.VAL'' (Inr 0)]\<rparr>)"
    by (simp add: Let_def PV_def pvname_def new_PV_def fake_def bare_def start_def)
  have wr: "put fake struck ''EraseStart'' (Number 1) None None struck_made =
     (Inr (Number 1), struck,
      \<lparr>ext = 2, calls = calls struck_made @ [PutPV 0 (Number 1) False 10 (Inr (Number 1))]\<rparr>)"
    by (simp add: Let_def put_def PV_def pvname_def handle_put_def fake_def struck_def struck_made_def)
  have rd: "get fake struck ''mca1'' None struck_made =
     (Inr (Reading 2 False), struck\<lparr>pvs := (pvs struck)(''13IDC:str:mca1'' \<mapsto> 2)\<rparr>,
      \<lparr>ext = 3, calls = calls struck_made @
         [NewPV ''13IDC:str:mca1'' (Inr 2), GetPV 2 False (Inr (Reading 2 False))]\<rparr>)"
    by (simp add: Let_def get_def PV_def pvname_def new_PV_def handle_get_def fake_def struck_def
        struck_made_def)
  have p: "prefix struck = Some ''13IDC:str:''" by (simp add: struck_def)
  have p0: "prefix bare = None" by (simp add: bare_def)
  note t = PV_requests_prefix_plus_attr [where lib = fake and dev = struck]
  from t [THEN conjunct1, rule_format, OF init]
    t [THEN conjunct2, THEN conjunct1, rule_format, OF pv, THEN conjunct1, rule_format, OF p]
    PV_requests_prefix_plus_attr [THEN conjunct2, THEN conjunct1, rule_format, OF pv0,
      THEN conjunct2, rule_format, OF p0]
    t [THEN conjunct2, THEN conjunct2, THEN conjunct1, rule_format, OF conjI, OF p wr]
    t [THEN conjunct2, THEN conjunct2, THEN conjunct2, rule_format, OF conjI, OF p rd]
    init pv pv0 wr rd p p0
  show ?thesis
    by (simp add: struck_def struck_made_def fake_def bare_def start_def split: option.splits)
qed

section \<open>Memoisation\<close>

text \<open>
  C2, as stated, fails at a Device whose cache already holds the name. The Device of the
  docstring is constructed with \<^verbatim>\<open>EraseStart\<close> among its \<^verbatim>\<open>attrs\<close>; two calls
  \<^verbatim>\<open>PV('EraseStart')\<close> on it return the cached handle \<open>0\<close> both times, and the
  constructor is called not once but never. It also fails where the constructor raises:
  on a Device without prefix, two calls \<^verbatim>\<open>PV('')\<close> both raise and call the constructor
  twice.
\<close>

theorem PV_twice_cached_counterexample:
  "Device_init fake (Some ''13IDC:str:'') (Some [''EraseStart'', ''StopAll'']) start
     = (Inr struck, struck_made) \<and>
   twice fake struck ''EraseStart'' struck_made = (Inr 0, Inr 0, 0) \<and>
   twice fake bare [] start = (Inl InvalidName, Inl InvalidName, 2)"
  by (simp add: Let_def Device_init_def twice_def PV_def pvname_def new_PV_def fake_def
      start_def struck_def struck_made_def bare_def constructions_def since_def)

text \<open>
  C2, amended. When the first of two calls \<^verbatim>\<open>PV(attr)\<close> returns a handle, the second
  returns the identical handle and changes neither the Device nor the world: it calls
  nothing. Across the two calls the constructor is called for the name exactly once when
  the name was not cached before the first call, and not at all when it was.
\<close>

theorem PV_twice_same_handle:
  assumes "PV lib self attr w = (Inr h, self1, w1)"
  shows "PV lib self1 attr w1 = (Inr h, self1, w1) \<and>
         twice lib self attr w =
           (Inr h, Inr h, case pvs self (pvname self attr) of None \<Rightarrow> 1 | Some h' \<Rightarrow> 0)"
proof -
  have n: "pvname self1 attr = pvname self attr"
    by (simp add: pvname_def PV_prefix [OF assms])
  from PV_cached [OF assms] n have second: "PV lib self1 attr w1 = (Inr h, self1, w1)"
    by (simp add: PV_hit)
  from PV_calls [OF assms]
  have "constructions (pvname self attr) (since w w1)
          = (case pvs self (pvname self attr) of None \<Rightarrow> 1 | Some h' \<Rightarrow> 0)"
    by (auto simp: constructions_def since_def split: option.splits)
  with assms second show ?thesis by (simp add: twice_def)
qed

theorem PV_twice_same_handle_witness:
  "PV fake struck ''mca1'' struck_made =
     (Inr 2, struck\<lparr>pvs := (pvs struck)(''13IDC:str:mca1'' \<mapsto> 2)\<rparr>,
      \<lparr>ext = 3, calls = calls struck_made @ [NewPV ''13IDC:str:mca1'' (Inr 2)]\<rparr>) \<and>
   PV fake (struck\<lparr>pvs := (pvs struck)(''13IDC:str:mca1'' \<mapsto> 2)\<rparr>) ''mca1''
      \<lparr>ext = 3, calls = calls struck_made @ [NewPV ''13IDC:str:mca1'' (Inr 2)]\<rparr> =
     (Inr 2, struck\<lparr>pvs := (pvs struck)(''13IDC:str:mca1'' \<mapsto> 2)\<rparr>,
      \<lparr>ext = 3, calls = calls struck_made @ [NewPV ''13IDC:str:mca1'' (Inr 2)]\<rparr>) \<and>
   twice fake struck ''mca1'' struck_made = (Inr 2, Inr 2, 1) \<and>
   PV fake struck ''StopAll'' struck_made = (Inr 1, struck, struck_made) \<and>
   twice fake struck ''StopAll'' struck_made = (Inr 1, Inr 1, 0)"
proof -
  have new: "PV fake struck ''mca1'' struck_made =
     (Inr 2, struck\<lparr>pvs := (pvs struck)(''13IDC:str:mca1'' \<mapsto> 2)\<rparr>,
      \<lparr>ext = 3, calls = calls struck_made @ [NewPV ''13IDC:str:mca1'' (Inr 2)]\<rparr>)"
    by (simp add: Let_def PV_def pvname_def new_PV_def fake_def struck_def struck_made_def)
  have old: "PV fake struck ''StopAll'' struck_made = (Inr 1, struck, struck_made)"
    by (simp add: Let_def PV_def pvname_def struck_def)
  from PV_twice_same_handle [OF new] PV_twice_same_handle [OF old] new old
  show ?thesis by (simp add: pvname_def struck_def)
qed

section \<open>Forwarding to the handle\<close>

text \<open>
  C3. When \<^verbatim>\<open>self.PV(attr)\<close> returns the handle \<open>h\<close>, \<^verbatim>\<open>put(attr, val, wait=b, timeout=t)\<close>
  makes the one call \<^verbatim>\<open>h.put(val, wait=b, timeout=t)\<close>, with \<open>val\<close>, \<open>b\<close> and \<open>t\<close> as
  they were given, on the library state that \<open>PV\<close> left, and its outcome is the outcome
  of that call. Leaving out \<^verbatim>\<open>wait\<close> is passing \<open>False\<close>, and leaving out \<^verbatim>\<open>timeout\<close>
  is passing \<open>10.0\<close>.
\<close>

theorem put_forwards_to_handle:
  assumes "PV lib self attr w = (Inr h, self1, w1)"
  shows "put lib self attr val (Some b) (Some t) w =
           (case PV_put lib h val b t (ext w1) of
              (r, x) \<Rightarrow> (r, self1, \<lparr>ext = x, calls = calls w1 @ [PutPV h val b t r]\<rparr>)) \<and>
         put lib self attr val None timeout_kw w = put lib self attr val (Some False) timeout_kw w \<and>
         put lib self attr val wait_kw None w = put lib self attr val wait_kw (Some 10) w"
  using assms by (simp add: put_def handle_put_def split: prod.splits)

theorem put_forwards_to_handle_witness:
  "PV fake struck ''EraseStart'' struck_made = (Inr 0, struck, struck_made) \<and>
   put fake struck ''EraseStart'' (Number 7) (Some True) (Some 5) struck_made =
     (Inr (Number 1), struck,
      \<lparr>ext = 2, calls = calls struck_made @ [PutPV 0 (Number 7) True 5 (Inr (Number 1))]\<rparr>) \<and>
   PV_put fake 0 (Number 7) True 5 (ext struck_made) = (Inr (Number 1), 2) \<and>
   put fake struck ''EraseStart'' (Number 7) None None struck_made =
     (Inr (Number 1), struck,
      \<lparr>ext = 2, calls = calls struck_made @ [PutPV 0 (Number 7) False 10 (Inr (Number 1))]\<rparr>)"
proof -
  have pv: "PV fake struck ''EraseStart'' struck_made = (Inr 0, struck, struck_made)"
    by (simp add: Let_def PV_def pvname_def struck_def)
  have lib: "PV_put fake 0 (Number 7) True 5 (ext struck_made) = (Inr (Number 1), 2)"
    "PV_put fake 0 (Number 7) False 10 (ext struck_made) = (Inr (Number 1), 2)"
    by (simp_all add: fake_def struck_made_def)
  note t = put_forwards_to_handle [OF pv, where val = "Number 7"]
  from t [where b = True and t = 5, THEN conjunct1]
    t [where b = False and t = 10, THEN conjunct1]
    t [where timeout_kw = None, THEN conjunct2, THEN conjunct1]
    t [where wait_kw = "Some False", THEN conjunct2, THEN conjunct2]
    pv lib
  show ?thesis by simp
qed

text \<open>
  C4. When \<^verbatim>\<open>self.PV(attr)\<close> returns the handle \<open>h\<close>, \<^verbatim>\<open>get(attr, as_string=s)\<close> makes
  the one call \<^verbatim>\<open>h.get(as_string=s)\<close>, with \<open>s\<close> as it was given, on the library state
  that \<open>PV\<close> left, and its outcome is the outcome of that call. Leaving out
  \<^verbatim>\<open>as_string\<close> is passing \<open>False\<close>.
\<close>

theorem get_forwards_to_handle:
  assumes "PV lib self attr w = (Inr h, self1, w1)"
  shows "get lib self attr (Some s) w =
           (case PV_get lib h s (ext w1) of
              (r, x) \<Rightarrow> (r, self1, \<lparr>ext = x, calls = calls w1 @ [GetPV h s r]\<rparr>)) \<and>
         get lib self attr None w = get lib self attr (Some False) w"
  using assms by (simp add: get_def handle_get_def split: prod.splits)

theorem get_forwards_to_handle_witness:
  "PV fake struck ''StopAll'' struck_made = (Inr 1, struck, struck_made) \<and>
   get fake struck ''StopAll'' (Some True) struck_made =
     (Inr (Reading 1 True), struck,
      \<lparr>ext = 2, calls = calls struck_made @ [GetPV 1 True (Inr (Reading 1 True))]\<rparr>) \<and>
   PV_get fake 1 True (ext struck_made) = (Inr (Reading 1 True), 2) \<and>
   get fake struck ''StopAll'' None struck_made =
     (Inr (Reading 1 False), struck,
      \<lparr>ext = 2, calls = calls struck_made @ [GetPV 1 False (Inr (Reading 1 False))]\<rparr>)"
proof -
  have pv: "PV fake struck ''StopAll'' struck_made = (Inr 1, struck, struck_made)"
    by (simp add: Let_def PV_def pvname_def struck_def)
  have lib: "PV_get fake 1 True (ext struck_made) = (Inr (Reading 1 True), 2)"
    "PV_get fake 1 False (ext struck_made) = (Inr (Reading 1 False), 2)"
    by (simp_all add: fake_def struck_made_def)
  note t = get_forwards_to_handle [OF pv]
  from t [where s = True, THEN conjunct1] t [where s = False, THEN conjunct1] t [THEN conjunct2]
    pv lib
  show ?thesis by simp
qed

section \<open>Construction\<close>

lemma preload_keeps:
  "preload lib self ps w = (Inr self', w') \<Longrightarrow> pvs self name = Some h \<Longrightarrow>
   pvs self' name = Some h"
proof (induction ps arbitrary: self w)
  case Nil
  then show ?case by simp
next
  case (Cons p ps)
  obtain r1 s1 w1 where pv: "PV lib self p w = (r1, s1, w1)"
    by (cases "PV lib self p w") auto
  show ?case
  proof (cases r1)
    case (Inl e)
    with Cons.prems pv show ?thesis by simp
  next
    case (Inr h1)
    with Cons.prems pv have "preload lib s1 ps w1 = (Inr self', w')" by simp
    from Cons.IH [OF this PV_keeps [OF pv Cons.prems(2)]] show ?thesis .
  qed
qed

lemma preload_dom:
  "preload lib self ps w = (Inr self', w') \<Longrightarrow>
   dom (pvs self') = dom (pvs self) \<union> pvname self ` set ps"
proof (induction ps arbitrary: self w)
  case Nil
  then show ?case by simp
next
  case (Cons p ps)
  obtain r1 s1 w1 where pv: "PV lib self p w = (r1, s1, w1)"
    by (cases "PV lib self p w") auto
  show ?case
  proof (cases r1)
    case (Inl e)
    with Cons.prems pv show ?thesis by simp
  next
    case (Inr h)
    with Cons.prems pv have rest: "preload lib s1 ps w1 = (Inr self', w')" by simp
    have n: "pvname s1 = pvname self"
      by (rule ext) (simp add: pvname_def PV_prefix [OF pv])
    from pv Inr have "dom (pvs s1) = insert (pvname self p) (dom (pvs self))"
      by (auto simp: PV_def Let_def split: option.splits prod.splits sum.splits if_splits)
    with Cons.IH [OF rest] n show ?thesis by auto
  qed
qed

text \<open>
  C5. A Device constructed with prefix \<open>p\<close> and \<^verbatim>\<open>attrs = [a1, a2]\<close> comes back from its
  constructor with handles cached under \<open>p @ a1\<close> and \<open>p @ a2\<close> and under no other name,
  and they are the handles the library's constructor returned for these names during the
  construction: one call for \<open>p @ a1\<close> and then, unless \<open>a2\<close> is the same attribute, one
  for \<open>p @ a2\<close>. With \<^verbatim>\<open>attrs\<close> left out or empty the constructor returns a Device with
  an empty cache, raises nothing and calls nothing.
\<close>

theorem Device_init_preloads:
  "(Device_init lib (Some p) (Some [a1, a2]) w = (Inr (self :: 'h Device), w') \<longrightarrow>
      prefix self = Some p \<and> dom (pvs self) = {p @ a1, p @ a2} \<and>
      (\<exists>h1 h2. pvs self (p @ a1) = Some h1 \<and> pvs self (p @ a2) = Some h2 \<and>
         calls w' = calls w @
           (if a1 = a2 then [NewPV (p @ a1) (Inr h1)]
            else [NewPV (p @ a1) (Inr h1), NewPV (p @ a2) (Inr h2)]))) \<and>
   Device_init lib prefix_arg None w = (Inr \<lparr>prefix = prefix_arg, pvs = Map.empty\<rparr>, w) \<and>
   Device_init lib prefix_arg (Some []) w = (Inr \<lparr>prefix = prefix_arg, pvs = Map.empty\<rparr>, w)"
proof (intro conjI impI)
  assume a: "Device_init lib (Some p) (Some [a1, a2]) w = (Inr self, w')"
  define d0 :: "'h Device" where "d0 = \<lparr>prefix = Some p, pvs = Map.empty\<rparr>"
  from a have pre: "preload lib d0 [a1, a2] w = (Inr self, w')"
    by (simp add: Device_init_def d0_def)
  have n0: "pvname d0 a1 = p @ a1" "pvname d0 a2 = p @ a2"
    by (simp_all add: pvname_def d0_def)
  from Device_init_prefix [OF a] show "prefix self = Some p" .
  from preload_dom [OF pre] n0 show "dom (pvs self) = {p @ a1, p @ a2}"
    by (simp add: d0_def)
  obtain r1 s1 w1 where pv1: "PV lib d0 a1 w = (r1, s1, w1)"
    by (cases "PV lib d0 a1 w") auto
  from pre pv1 obtain h1 where r1: "r1 = Inr h1" by (cases r1) auto
  obtain r2 s2 w2 where pv2: "PV lib s1 a2 w1 = (r2, s2, w2)"
    by (cases "PV lib s1 a2 w1") auto
  from pre pv1 r1 pv2 obtain h2 where r2: "r2 = Inr h2" by (cases r2) auto
  from pre pv1 r1 pv2 r2 have fin: "self = s2" "w' = w2" by simp_all
  have n1: "pvname s1 a2 = p @ a2"
    by (simp add: pvname_def PV_prefix [OF pv1] d0_def)
  from PV_cached [OF pv1 [unfolded r1]] n0 have c1: "pvs s1 (p @ a1) = Some h1" by simp
  from PV_keeps [OF pv2 c1] fin have k1: "pvs self (p @ a1) = Some h1" by simp
  from PV_cached [OF pv2 [unfolded r2]] n1 fin have k2: "pvs self (p @ a2) = Some h2" by simp
  from PV_calls [OF pv1] n0 r1 have t1: "calls w1 = calls w @ [NewPV (p @ a1) (Inr h1)]"
    by (simp add: d0_def)
  have t2: "calls w' = calls w @
           (if a1 = a2 then [NewPV (p @ a1) (Inr h1)]
            else [NewPV (p @ a1) (Inr h1), NewPV (p @ a2) (Inr h2)])"
  proof (cases "a1 = a2")
    case True
    with PV_calls [OF pv2] n1 c1 t1 fin show ?thesis by simp
  next
    case False
    from PV_other [OF pv1, of "p @ a2"] False n0 have "pvs s1 (p @ a2) = None"
      by (simp add: d0_def)
    with PV_calls [OF pv2] n1 r2 t1 fin False show ?thesis by simp
  qed
  from k1 k2 t2
  show "\<exists>h1 h2. pvs self (p @ a1) = Some h1 \<and> pvs self (p @ a2) = Some h2 \<and>
         calls w' = calls w @
           (if a1 = a2 then [NewPV (p @ a1) (Inr h1)]
            else [NewPV (p @ a1) (Inr h1), NewPV (p @ a2) (Inr h2)])"
    by blast
next
  show "Device_init lib prefix_arg None w = (Inr \<lparr>prefix = prefix_arg, pvs = Map.empty\<rparr>, w)"
    by (simp add: Device_init_def)
next
  show "Device_init lib prefix_arg (Some []) w = (Inr \<lparr>prefix = prefix_arg, pvs = Map.empty\<rparr>, w)"
    by (simp add: Device_init_def)
qed

theorem Device_init_preloads_witness:
  "Device_init fake (Some ''13IDC:str:'') (Some [''EraseStart'', ''StopAll'']) start
     = (Inr struck, struck_made) \<and>
   prefix struck = Some ''13IDC:str:'' \<and>
   dom (pvs struck) = {''13IDC:str:EraseStart'', ''13IDC:str:StopAll''} \<and>
   pvs struck ''13IDC:str:EraseStart'' = Some 0 \<and>
   pvs struck ''13IDC:str:StopAll'' = Some 1 \<and>
   calls struck_made = calls start @
     [NewPV ''13IDC:str:EraseStart'' (Inr 0), NewPV ''13IDC:str:StopAll'' (Inr 1)]"
proof -
  have init: "Device_init fake (Some ''13IDC:str:'') (Some [''EraseStart'', ''StopAll'']) start
     = (Inr struck, struck_made)"
    by (simp add: Let_def Device_init_def PV_def pvname_def new_PV_def fake_def start_def
        struck_def struck_made_def)
  from Device_init_preloads [THEN conjunct1, rule_format, OF init] init
  show ?thesis by (auto simp: struck_def struck_made_def start_def)
qed

section \<open>Exceptions of the library\<close>

text \<open>
  C6. For the constructor, for \<open>PV\<close>, \<open>put\<close> and \<open>get\<close>, and for every run of calls on a
  Device: the library calls made are \<open>since w w'\<close>, and they are \<open>propagated\<close> to the
  outcome. That is, the operation raises \<open>e\<close> exactly when its last library call raised
  \<open>e\<close>, no library call is made after one that raised (nothing is retried, nothing is done
  to recover), and an operation whose library calls all returned raises nothing.
\<close>

theorem library_exceptions_propagate:
  "(Device_init lib prefix_arg attrs w = (r0, w0) \<longrightarrow>
      calls w0 = calls w @ since w w0 \<and> propagated (exception r0) (since w w0)) \<and>
   (PV lib self attr w = (r1, self1, w1) \<longrightarrow>
      calls w1 = calls w @ since w w1 \<and> propagated (exception r1) (since w w1)) \<and>
   (put lib self attr val wait_kw timeout_kw w = (r2, self2, w2) \<longrightarrow>
      calls w2 = calls w @ since w w2 \<and> propagated (exception r2) (since w w2)) \<and>
   (get lib self attr as_string_kw w = (r3, self3, w3) \<longrightarrow>
      calls w3 = calls w @ since w w3 \<and> propagated (exception r3) (since w w3)) \<and>
   (run lib self rqs w = (out, self4, w4) \<longrightarrow>
      calls w4 = calls w @ since w w4 \<and> propagated out (since w w4))"
proof (intro conjI impI)
  assume "Device_init lib prefix_arg attrs w = (r0, w0)"
  from Device_init_trace [OF this] obtain cs where
    cs: "calls w0 = calls w @ cs" "propagated (exception r0) cs" by blast
  from cs show "calls w0 = calls w @ since w w0" by (simp add: since_def)
  from cs show "propagated (exception r0) (since w w0)" by (simp add: since_def)
next
  assume "PV lib self attr w = (r1, self1, w1)"
  from PV_trace [OF this] obtain cs where
    cs: "calls w1 = calls w @ cs" "propagated (exception r1) cs" by blast
  from cs show "calls w1 = calls w @ since w w1" by (simp add: since_def)
  from cs show "propagated (exception r1) (since w w1)" by (simp add: since_def)
next
  assume "put lib self attr val wait_kw timeout_kw w = (r2, self2, w2)"
  from put_trace [OF this] obtain cs where
    cs: "calls w2 = calls w @ cs" "propagated (exception r2) cs" by blast
  from cs show "calls w2 = calls w @ since w w2" by (simp add: since_def)
  from cs show "propagated (exception r2) (since w w2)" by (simp add: since_def)
next
  assume "get lib self attr as_string_kw w = (r3, self3, w3)"
  from get_trace [OF this] obtain cs where
    cs: "calls w3 = calls w @ cs" "propagated (exception r3) cs" by blast
  from cs show "calls w3 = calls w @ since w w3" by (simp add: since_def)
  from cs show "propagated (exception r3) (since w w3)" by (simp add: since_def)
next
  assume "run lib self rqs w = (out, self4, w4)"
  from run_trace [OF this] obtain cs where
    cs: "calls w4 = calls w @ cs" "propagated out cs" by blast
  from cs show "calls w4 = calls w @ since w w4" by (simp add: since_def)
  from cs show "propagated out (since w w4)" by (simp add: since_def)
qed

theorem library_exceptions_propagate_witness:
  "Device_init fake None (Some [''13IDC:m1.VAL'', [], ''13IDC:m3.VAL'']) start =
     (Inl InvalidName,
      \<lparr>ext = 1, calls = [NewPV ''13IDC:m1.VAL'' (Inr 0), NewPV [] (Inl InvalidName)]\<rparr>) \<and>
   PV fake bare [] start = (Inl InvalidName, bare, \<lparr>ext = 0, calls = [NewPV [] (Inl InvalidName)]\<rparr>) \<and>
   put fake struck ''StopAll'' (Number 1) (Some True) (Some 0) struck_made =
     (Inl TimedOut, struck,
      \<lparr>ext = 2, calls = calls struck_made @ [PutPV 1 (Number 1) True 0 (Inl TimedOut)]\<rparr>) \<and>
   get fake bare [] None start =
     (Inl InvalidName, bare, \<lparr>ext = 0, calls = [NewPV [] (Inl InvalidName)]\<rparr>) \<and>
   run fake bare impatient start =
     (Some TimedOut, bare\<lparr>pvs := [''13IDC:m1.VAL'' \<mapsto> 0]\<rparr>,
      \<lparr>ext = 1, calls = [NewPV ''13IDC:m1.VAL'' (Inr 0),
         PutPV 0 (Number 2) True 0 (Inl TimedOut)]\<rparr>) \<and>
   propagated (Some TimedOut)
     [NewPV ''13IDC:m1.VAL'' (Inr 0), PutPV 0 (Number 2) True 0 (Inl TimedOut)] \<and>
   propagated (Some InvalidName) [NewPV ''13IDC:m1.VAL'' (Inr 0), NewPV [] (Inl InvalidName)]"
proof -
  have init: "Device_init fake None (Some [''13IDC:m1.VAL'', [], ''13IDC:m3.VAL'']) start =
     (Inl InvalidName,
      \<lparr>ext = 1, calls = [NewPV ''13IDC:m1.VAL'' (Inr 0), NewPV [] (Inl InvalidName)]\<rparr>)"
    by (simp add: Let_def Device_init_def PV_def pvname_def new_PV_def fake_def start_def)
  have pv: "PV fake bare [] start =
     (Inl InvalidName, bare, \<lparr>ext = 0, calls = [NewPV [] (Inl InvalidName)]\<rparr>)"
    by (simp add: Let_def PV_def pvname_def new_PV_def fake_def start_def bare_def)
  have wr: "put fake struck ''StopAll'' (Number 1) (Some True) (Some 0) struck_made =
     (Inl TimedOut, struck,
      \<lparr>ext = 2, calls = calls struck_made @ [PutPV 1 (Number 1) True 0 (Inl TimedOut)]\<rparr>)"
    by (simp add: Let_def put_def PV_def pvname_def handle_put_def fake_def struck_def
        struck_made_def)
  have rd: "get fake bare [] None start =
     (Inl InvalidName, bare, \<lparr>ext = 0, calls = [NewPV [] (Inl InvalidName)]\<rparr>)"
    by (simp add: Let_def get_def PV_def pvname_def new_PV_def fake_def start_def bare_def)
  have rn: "run fake bare impatient start =
     (Some TimedOut, bare\<lparr>pvs := [''13IDC:m1.VAL'' \<mapsto> 0]\<rparr>,
      \<lparr>ext = 1, calls = [NewPV ''13IDC:m1.VAL'' (Inr 0),
         PutPV 0 (Number 2) True 0 (Inl TimedOut)]\<rparr>)"
    by (simp add: Let_def impatient_def put_def PV_def pvname_def new_PV_def handle_put_def
        exception_def fake_def start_def bare_def)
  note t = library_exceptions_propagate [where lib = fake]
  from t [THEN conjunct1, rule_format, OF init]
    t [THEN conjunct2, THEN conjunct1, rule_format, OF pv]
    t [THEN conjunct2, THEN conjunct2, THEN conjunct1, rule_format, OF wr]
    t [THEN conjunct2, THEN conjunct2, THEN conjunct2, THEN conjunct1, rule_format, OF rd]
    t [THEN conjunct2, THEN conjunct2, THEN conjunct2, THEN conjunct2, rule_format, OF rn]
    init pv wr rd rn
  show ?thesis by (simp add: since_def start_def exception_def)
qed

section \<open>The cache\<close>

text \<open>
  C7. An entry of the cache stays, with the handle it has: after the loop of the
  constructor, after \<open>PV\<close>, \<open>put\<close> and \<open>get\<close>, whether they return or raise, and after
  every run of calls, a name that was cached with handle \<open>h\<close> is cached with handle
  \<open>h\<close>. No entry is removed and none gets another handle; the cache only grows.
\<close>

theorem cache_only_grows:
  "(preload lib self ps w = (Inr self0, w0) \<longrightarrow>
      (pvs self name = Some h \<longrightarrow> pvs self0 name = Some h) \<and> dom (pvs self) \<subseteq> dom (pvs self0)) \<and>
   (PV lib self attr w = (r1, self1, w1) \<longrightarrow>
      (pvs self name = Some h \<longrightarrow> pvs self1 name = Some h) \<and> dom (pvs self) \<subseteq> dom (pvs self1)) \<and>
   (put lib self attr val wait_kw timeout_kw w = (r2, self2, w2) \<longrightarrow>
      (pvs self name = Some h \<longrightarrow> pvs self2 name = Some h) \<and> dom (pvs self) \<subseteq> dom (pvs self2)) \<and>
   (get lib self attr as_string_kw w = (r3, self3, w3) \<longrightarrow>
      (pvs self name = Some h \<longrightarrow> pvs self3 name = Some h) \<and> dom (pvs self) \<subseteq> dom (pvs self3)) \<and>
   (run lib self rqs w = (out, self4, w4) \<longrightarrow>
      (pvs self name = Some h \<longrightarrow> pvs self4 name = Some h) \<and> dom (pvs self) \<subseteq> dom (pvs self4))"
proof (intro conjI impI)
  assume a: "preload lib self ps w = (Inr self0, w0)"
  then show "pvs self name = Some h \<Longrightarrow> pvs self0 name = Some h"
    by (rule preload_keeps)
  from a show "dom (pvs self) \<subseteq> dom (pvs self0)"
    by (auto dest: preload_keeps)
next
  assume a: "PV lib self attr w = (r1, self1, w1)"
  then show "pvs self name = Some h \<Longrightarrow> pvs self1 name = Some h"
    by (rule PV_keeps)
  from a show "dom (pvs self) \<subseteq> dom (pvs self1)"
    by (auto dest: PV_keeps)
next
  assume "put lib self attr val wait_kw timeout_kw w = (r2, self2, w2)"
  from put_device [OF this] obtain r w' where a: "PV lib self attr w = (r, self2, w')"
    by blast
  then show "pvs self name = Some h \<Longrightarrow> pvs self2 name = Some h"
    by (rule PV_keeps)
  from a show "dom (pvs self) \<subseteq> dom (pvs self2)"
    by (auto dest: PV_keeps)
next
  assume "get lib self attr as_string_kw w = (r3, self3, w3)"
  from get_device [OF this] obtain r w' where a: "PV lib self attr w = (r, self3, w')"
    by blast
  then show "pvs self name = Some h \<Longrightarrow> pvs self3 name = Some h"
    by (rule PV_keeps)
  from a show "dom (pvs self) \<subseteq> dom (pvs self3)"
    by (auto dest: PV_keeps)
next
  assume a: "run lib self rqs w = (out, self4, w4)"
  then show "pvs self name = Some h \<Longrightarrow> pvs self4 name = Some h"
    by (rule run_keeps)
  from a show "dom (pvs self) \<subseteq> dom (pvs self4)"
    by (auto dest: run_keeps)
qed

theorem cache_only_grows_witness:
  "preload fake struck [''mca1'', ''StopAll''] struck_made =
     (Inr (struck\<lparr>pvs := (pvs struck)(''13IDC:str:mca1'' \<mapsto> 2)\<rparr>),
      \<lparr>ext = 3, calls = calls struck_made @ [NewPV ''13IDC:str:mca1'' (Inr 2)]\<rparr>) \<and>
   PV fake struck ''mca1'' struck_made =
     (Inr 2, struck\<lparr>pvs := (pvs struck)(''13IDC:str:mca1'' \<mapsto> 2)\<rparr>,
      \<lparr>ext = 3, calls = calls struck_made @ [NewPV ''13IDC:str:mca1'' (Inr 2)]\<rparr>) \<and>
   put fake struck ''mca1'' (Number 1) (Some True) (Some 0) struck_made =
     (Inl TimedOut, struck\<lparr>pvs := (pvs struck)(''13IDC:str:mca1'' \<mapsto> 2)\<rparr>,
      \<lparr>ext = 3, calls = calls struck_made @
         [NewPV ''13IDC:str:mca1'' (Inr 2), PutPV 2 (Number 1) True 0 (Inl TimedOut)]\<rparr>) \<and>
   get fake struck ''mca1'' None struck_made =
     (Inr (Reading 2 False), struck\<lparr>pvs := (pvs struck)(''13IDC:str:mca1'' \<mapsto> 2)\<rparr>,
      \<lparr>ext = 3, calls = calls struck_made @
         [NewPV ''13IDC:str:mca1'' (Inr 2), GetPV 2 False (Inr (Reading 2 False))]\<rparr>) \<and>
   run fake struck [CallGet ''mca1'' None, CallPV ''StopAll''] struck_made =
     (None, struck\<lparr>pvs := (pvs struck)(''13IDC:str:mca1'' \<mapsto> 2)\<rparr>,
      \<lparr>ext = 3, calls = calls struck_made @
         [NewPV ''13IDC:str:mca1'' (Inr 2), GetPV 2 False (Inr (Reading 2 False))]\<rparr>) \<and>
   pvs struck ''13IDC:str:StopAll'' = Some 1 \<and>
   pvs (struck\<lparr>pvs := (pvs struck)(''13IDC:str:mca1'' \<mapsto> 2)\<rparr>) ''13IDC:str:StopAll'' = Some 1 \<and>
   dom (pvs struck) \<subseteq> dom (pvs (struck\<lparr>pvs := (pvs struck)(''13IDC:str:mca1'' \<mapsto> 2)\<rparr>))"
proof -
  have pre: "preload fake struck [''mca1'', ''StopAll''] struck_made =
     (Inr (struck\<lparr>pvs := (pvs struck)(''13IDC:str:mca1'' \<mapsto> 2)\<rparr>),
      \<lparr>ext = 3, calls = calls struck_made @ [NewPV ''13IDC:str:mca1'' (Inr 2)]\<rparr>)"
    by (simp add: Let_def PV_def pvname_def new_PV_def fake_def struck_def struck_made_def)
  have pv: "PV fake struck ''mca1'' struck_made =
     (Inr 2, struck\<lparr>pvs := (pvs struck)(''13IDC:str:mca1'' \<mapsto> 2)\<rparr>,
      \<lparr>ext = 3, calls = calls struck_made @ [NewPV ''13IDC:str:mca1'' (Inr 2)]\<rparr>)"
    by (simp add: Let_def PV_def pvname_def new_PV_def fake_def struck_def struck_made_def)
  have wr: "put fake struck ''mca1'' (Number 1) (Some True) (Some 0) struck_made =
     (Inl TimedOut, struck\<lparr>pvs := (pvs struck)(''13IDC:str:mca1'' \<mapsto> 2)\<rparr>,
      \<lparr>ext = 3, calls = calls struck_made @
         [NewPV ''13IDC:str:mca1'' (Inr 2), PutPV 2 (Number 1) True 0 (Inl TimedOut)]\<rparr>)"
    by (simp add: Let_def put_def PV_def pvname_def new_PV_def handle_put_def fake_def
        struck_def struck_made_def)
  have rd: "get fake struck ''mca1'' None struck_made =
     (Inr (Reading 2 False), struck\<lparr>pvs := (pvs struck)(''13IDC:str:mca1'' \<mapsto> 2)\<rparr>,
      \<lparr>ext = 3, calls = calls struck_made @
         [NewPV ''13IDC:str:mca1'' (Inr 2), GetPV 2 False (Inr (Reading 2 False))]\<rparr>)"
    by (simp add: Let_def get_def PV_def pvname_def new_PV_def handle_get_def fake_def
        struck_def struck_made_def)
  have rn: "run fake struck [CallGet ''mca1'' None, CallPV ''StopAll''] struck_made =
     (None, struck\<lparr>pvs := (pvs struck)(''13IDC:str:mca1'' \<mapsto> 2)\<rparr>,
      \<lparr>ext = 3, calls = calls struck_made @
         [NewPV ''13IDC:str:mca1'' (Inr 2), GetPV 2 False (Inr (Reading 2 False))]\<rparr>)"
    by (simp add: Let_def get_def PV_def pvname_def new_PV_def handle_get_def exception_def
        fake_def struck_def struck_made_def)
  have c: "pvs struck ''13IDC:str:StopAll'' = Some 1" by (simp add: struck_def)
  note t = cache_only_grows [where lib = fake and self = struck
      and name = "''13IDC:str:StopAll''" and h = 1]
  from t [THEN conjunct1, rule_format, OF pre, THEN conjunct1, rule_format, OF c]
    t [THEN conjunct2, THEN conjunct1, rule_format, OF pv]
    t [THEN conjunct2, THEN conjunct2, THEN conjunct1, rule_format, OF wr]
    t [THEN conjunct2, THEN conjunct2, THEN conjunct2, THEN conjunct1, rule_format, OF rd]
    t [THEN conjunct2, THEN conjunct2, THEN conjunct2, THEN conjunct2, rule_format, OF rn]
    pre pv wr rd rn c
  show ?thesis by simp
qed

text \<open>
  C8. When the name of \<open>attr\<close> is not cached and the library's constructor raises \<open>e\<close> on
  it, \<open>PV\<close> raises \<open>e\<close> and the Device is the Device it was: nothing is stored under
  the name. A later \<open>PV\<close> with the same \<open>attr\<close> on that Device, in any world \<open>w2\<close>, calls
  the constructor on the name again, and its outcome is the outcome of that call.
\<close>

theorem failed_construction_caches_nothing:
  assumes "pvs self (pvname self attr) = None"
    and "epics_PV lib (pvname self attr) (ext w) = (Inl e, x)"
  shows "PV lib self attr w =
           (Inl e, self, \<lparr>ext = x, calls = calls w @ [NewPV (pvname self attr) (Inl e)]\<rparr>) \<and>
         fst (PV lib self attr w2) = fst (epics_PV lib (pvname self attr) (ext w2)) \<and>
         ext (snd (snd (PV lib self attr w2))) = snd (epics_PV lib (pvname self attr) (ext w2)) \<and>
         calls (snd (snd (PV lib self attr w2))) =
           calls w2 @ [NewPV (pvname self attr) (fst (PV lib self attr w2))]"
  using assms by (simp add: PV_miss split: prod.splits sum.splits)

theorem failed_construction_caches_nothing_witness:
  "pvs bare (pvname bare []) = None \<and>
   epics_PV fake (pvname bare []) (ext start) = (Inl InvalidName, 0) \<and>
   PV fake bare [] start =
     (Inl InvalidName, bare, \<lparr>ext = 0, calls = [NewPV [] (Inl InvalidName)]\<rparr>) \<and>
   PV fake bare [] \<lparr>ext = 0, calls = [NewPV [] (Inl InvalidName)]\<rparr> =
     (Inl InvalidName, bare,
      \<lparr>ext = 0, calls = [NewPV [] (Inl InvalidName), NewPV [] (Inl InvalidName)]\<rparr>)"
proof -
  have c: "pvs bare (pvname bare []) = None" by (simp add: bare_def)
  have l: "epics_PV fake (pvname bare []) (ext start) = (Inl InvalidName, 0)"
    by (simp add: fake_def start_def pvname_def bare_def)
  have again: "PV fake bare [] \<lparr>ext = 0, calls = [NewPV [] (Inl InvalidName)]\<rparr> =
     (Inl InvalidName, bare,
      \<lparr>ext = 0, calls = [NewPV [] (Inl InvalidName), NewPV [] (Inl InvalidName)]\<rparr>)"
    by (simp add: Let_def PV_def pvname_def new_PV_def fake_def bare_def)
  from failed_construction_caches_nothing [OF c l] c l again
  show ?thesis by (simp add: start_def pvname_def bare_def)
qed

text \<open>
  C10. \<open>PV\<close>, \<open>put\<close> and \<open>get\<close> with \<open>attr\<close>, whether they return or raise, leave the
  prefix as it is and leave every cache entry other than the one of \<open>attr\<close>'s name as it
  is, present or absent. No run of calls on a Device changes its prefix.
\<close>

theorem calls_change_one_entry_at_most:
  "(PV lib self attr w = (r1, self1, w1) \<longrightarrow>
      prefix self1 = prefix self \<and>
      (name \<noteq> pvname self attr \<longrightarrow> pvs self1 name = pvs self name)) \<and>
   (put lib self attr val wait_kw timeout_kw w = (r2, self2, w2) \<longrightarrow>
      prefix self2 = prefix self \<and>
      (name \<noteq> pvname self attr \<longrightarrow> pvs self2 name = pvs self name)) \<and>
   (get lib self attr as_string_kw w = (r3, self3, w3) \<longrightarrow>
      prefix self3 = prefix self \<and>
      (name \<noteq> pvname self attr \<longrightarrow> pvs self3 name = pvs self name)) \<and>
   (run lib self rqs w = (out, self4, w4) \<longrightarrow> prefix self4 = prefix self)"
proof (intro conjI impI)
  assume a: "PV lib self attr w = (r1, self1, w1)"
  then show "prefix self1 = prefix self" by (rule PV_prefix)
  from a show "name \<noteq> pvname self attr \<Longrightarrow> pvs self1 name = pvs self name"
    by (rule PV_other)
next
  assume "put lib self attr val wait_kw timeout_kw w = (r2, self2, w2)"
  from put_device [OF this] obtain r w' where a: "PV lib self attr w = (r, self2, w')"
    by blast
  then show "prefix self2 = prefix self" by (rule PV_prefix)
  from a show "name \<noteq> pvname self attr \<Longrightarrow> pvs self2 name = pvs self name"
    by (rule PV_other)
next
  assume "get lib self attr as_string_kw w = (r3, self3, w3)"
  from get_device [OF this] obtain r w' where a: "PV lib self attr w = (r, self3, w')"
    by blast
  then show "prefix self3 = prefix self" by (rule PV_prefix)
  from a show "name \<noteq> pvname self attr \<Longrightarrow> pvs self3 name = pvs self name"
    by (rule PV_other)
next
  assume "run lib self rqs w = (out, self4, w4)"
  then show "prefix self4 = prefix self" by (rule run_prefix)
qed

theorem calls_change_one_entry_at_most_witness:
  "PV fake struck ''mca1'' struck_made =
     (Inr 2, struck\<lparr>pvs := (pvs struck)(''13IDC:str:mca1'' \<mapsto> 2)\<rparr>,
      \<lparr>ext = 3, calls = calls struck_made @ [NewPV ''13IDC:str:mca1'' (Inr 2)]\<rparr>) \<and>
   put fake struck ''mca1'' (Number 1) (Some True) (Some 0) struck_made =
     (Inl TimedOut, struck\<lparr>pvs := (pvs struck)(''13IDC:str:mca1'' \<mapsto> 2)\<rparr>,
      \<lparr>ext = 3, calls = calls struck_made @
         [NewPV ''13IDC:str:mca1'' (Inr 2), PutPV 2 (Number 1) True 0 (Inl TimedOut)]\<rparr>) \<and>
   get fake struck ''mca1'' None struck_made =
     (Inr (Reading 2 False), struck\<lparr>pvs := (pvs struck)(''13IDC:str:mca1'' \<mapsto> 2)\<rparr>,
      \<lparr>ext = 3, calls = calls struck_made @
         [NewPV ''13IDC:str:mca1'' (Inr 2), GetPV 2 False (Inr (Reading 2 False))]\<rparr>) \<and>
   run fake struck [CallGet ''mca1'' None, CallPV ''StopAll''] struck_made =
     (None, struck\<lparr>pvs := (pvs struck)(''13IDC:str:mca1'' \<mapsto> 2)\<rparr>,
      \<lparr>ext = 3, calls = calls struck_made @
         [NewPV ''13IDC:str:mca1'' (Inr 2), GetPV 2 False (Inr (Reading 2 False))]\<rparr>) \<and>
   ''13IDC:str:mca2'' \<noteq> pvname struck ''mca1'' \<and>
   ''13IDC:str:StopAll'' \<noteq> pvname struck ''mca1'' \<and>
   prefix (struck\<lparr>pvs := (pvs struck)(''13IDC:str:mca1'' \<mapsto> 2)\<rparr>) = prefix struck \<and>
   pvs (struck\<lparr>pvs := (pvs struck)(''13IDC:str:mca1'' \<mapsto> 2)\<rparr>) ''13IDC:str:mca2'' =
     pvs struck ''13IDC:str:mca2'' \<and>
   pvs (struck\<lparr>pvs := (pvs struck)(''13IDC:str:mca1'' \<mapsto> 2)\<rparr>) ''13IDC:str:StopAll'' =
     pvs struck ''13IDC:str:StopAll''"
proof -
  have pv: "PV fake struck ''mca1'' struck_made =
     (Inr 2, struck\<lparr>pvs := (pvs struck)(''13IDC:str:mca1'' \<mapsto> 2)\<rparr>,
      \<lparr>ext = 3, calls = calls struck_made @ [NewPV ''13IDC:str:mca1'' (Inr 2)]\<rparr>)"
    by (simp add: Let_def PV_def pvname_def new_PV_def fake_def struck_def struck_made_def)
  have wr: "put fake struck ''mca1'' (Number 1) (Some True) (Some 0) struck_made =
     (Inl TimedOut, struck\<lparr>pvs := (pvs struck)(''13IDC:str:mca1'' \<mapsto> 2)\<rparr>,
      \<lparr>ext = 3, calls = calls struck_made @
         [NewPV ''13IDC:str:mca1'' (Inr 2), PutPV 2 (Number 1) True 0 (Inl TimedOut)]\<rparr>)"
    by (simp add: Let_def put_def PV_def pvname_def new_PV_def handle_put_def fake_def
        struck_def struck_made_def)
  have rd: "get fake struck ''mca1'' None struck_made =
     (Inr (Reading 2 False), struck\<lparr>pvs := (pvs struck)(''13IDC:str:mca1'' \<mapsto> 2)\<rparr>,
      \<lparr>ext = 3, calls = calls struck_made @
         [NewPV ''13IDC:str:mca1'' (Inr 2), GetPV 2 False (Inr (Reading 2 False))]\<rparr>)"
    by (simp add: Let_def get_def PV_def pvname_def new_PV_def handle_get_def fake_def
        struck_def struck_made_def)
  have rn: "run fake struck [CallGet ''mca1'' None, CallPV ''StopAll''] struck_made =
     (None, struck\<lparr>pvs := (pvs struck)(''13IDC:str:mca1'' \<mapsto> 2)\<rparr>,
      \<lparr>ext = 3, calls = calls struck_made @
         [NewPV ''13IDC:str:mca1'' (Inr 2), GetPV 2 False (Inr (Reading 2 False))]\<rparr>)"
    by (simp add: Let_def get_def PV_def pvname_def new_PV_def handle_get_def exception_def
        fake_def struck_def struck_made_def)
  have n: "''13IDC:str:mca2'' \<noteq> pvname struck ''mca1''"
    "''13IDC:str:StopAll'' \<noteq> pvname struck ''mca1''"
    by (simp_all add: pvname_def struck_def)
  note t = calls_change_one_entry_at_most [where lib = fake and self = struck]
  from t [THEN conjunct1, rule_format, OF pv, THEN conjunct2, rule_format, OF n(1)]
    t [THEN conjunct1, rule_format, OF pv, THEN conjunct1]
    t [THEN conjunct2, THEN conjunct1, rule_format, OF wr, THEN conjunct2, rule_format, OF n(2)]
    t [THEN conjunct2, THEN conjunct2, THEN conjunct1, rule_format, OF rd, THEN conjunct2,
      rule_format, OF n(1)]
    t [THEN conjunct2, THEN conjunct2, THEN conjunct2, rule_format, OF rn]
    pv wr rd rn n
  show ?thesis by simp
qed

section \<open>The empty prefix\<close>

lemma PV_empty_prefix:
  "prefix self = Some [] \<Longrightarrow>
   PV lib (self\<lparr>prefix := None\<rparr>) attr w =
     (case PV lib self attr w of (r, self', w') \<Rightarrow> (r, self'\<lparr>prefix := None\<rparr>, w'))"
  by (simp add: PV_def pvname_def Let_def split: option.splits prod.splits sum.splits)

lemma put_empty_prefix:
  "prefix self = Some [] \<Longrightarrow>
   put lib (self\<lparr>prefix := None\<rparr>) attr val wait_kw timeout_kw w =
     (case put lib self attr val wait_kw timeout_kw w of
        (r, self', w') \<Rightarrow> (r, self'\<lparr>prefix := None\<rparr>, w'))"
  by (simp add: put_def PV_empty_prefix split: prod.splits sum.splits)

lemma get_empty_prefix:
  "prefix self = Some [] \<Longrightarrow>
   get lib (self\<lparr>prefix := None\<rparr>) attr as_string_kw w =
     (case get lib self attr as_string_kw w of
        (r, self', w') \<Rightarrow> (r, self'\<lparr>prefix := None\<rparr>, w'))"
  by (simp add: get_def PV_empty_prefix split: prod.splits sum.splits)

lemma perform_empty_prefix:
  "prefix self = Some [] \<Longrightarrow>
   perform lib (self\<lparr>prefix := None\<rparr>) rq w =
     (case perform lib self rq w of (out, self', w') \<Rightarrow> (out, self'\<lparr>prefix := None\<rparr>, w'))"
  by (cases rq)
    (simp_all add: PV_empty_prefix put_empty_prefix get_empty_prefix split: prod.splits)

lemma run_empty_prefix:
  "prefix self = Some [] \<Longrightarrow>
   run lib (self\<lparr>prefix := None\<rparr>) rqs w =
     (case run lib self rqs w of (out, self', w') \<Rightarrow> (out, self'\<lparr>prefix := None\<rparr>, w'))"
proof (induction rqs arbitrary: self w)
  case Nil
  then show ?case by simp
next
  case (Cons rq rqs)
  obtain o1 s1 w1 where step: "perform lib self rq w = (o1, s1, w1)"
    by (cases "perform lib self rq w") auto
  from perform_device [OF step] Cons.prems have p1: "prefix s1 = Some []"
    by (auto dest: PV_prefix)
  from step Cons.prems have step': "perform lib (self\<lparr>prefix := None\<rparr>) rq w = (o1, s1\<lparr>prefix := None\<rparr>, w1)"
    by (simp add: perform_empty_prefix)
  show ?case
  proof (cases o1)
    case None
    with step step' Cons.IH [OF p1, of w1] show ?thesis by simp
  next
    case (Some e)
    with step step' show ?thesis by simp
  qed
qed

lemma preload_empty_prefix:
  "prefix self = Some [] \<Longrightarrow>
   preload lib (self\<lparr>prefix := None\<rparr>) ps w =
     (case preload lib self ps w of
        (Inl e, w') \<Rightarrow> (Inl e, w')
      | (Inr self', w') \<Rightarrow> (Inr (self'\<lparr>prefix := None\<rparr>), w'))"
proof (induction ps arbitrary: self w)
  case Nil
  then show ?case by simp
next
  case (Cons p ps)
  obtain r1 s1 w1 where pv: "PV lib self p w = (r1, s1, w1)"
    by (cases "PV lib self p w") auto
  from PV_prefix [OF pv] Cons.prems have p1: "prefix s1 = Some []" by simp
  from pv Cons.prems have pv': "PV lib (self\<lparr>prefix := None\<rparr>) p w = (r1, s1\<lparr>prefix := None\<rparr>, w1)"
    by (simp add: PV_empty_prefix)
  show ?case
  proof (cases r1)
    case (Inl e)
    with pv pv' show ?thesis by simp
  next
    case (Inr h)
    with pv pv' Cons.IH [OF p1, of w1] show ?thesis by simp
  qed
qed

text \<open>
  C9. A Device whose prefix is the empty string resolves \<open>attr\<close> to \<open>attr\<close> itself, as
  a Device without prefix does. Replacing the empty prefix by \<open>None\<close> changes nothing
  but the prefix attribute: \<open>PV\<close>, \<open>put\<close>, \<open>get\<close> and every run of calls have the same
  outcome, make the same library calls and leave the same cache, and the constructor
  called with the empty string and with \<open>None\<close> does the same up to the stored prefix.
\<close>

theorem empty_prefix_same_as_absent:
  assumes "prefix self = Some []"
  shows "pvname self attr = attr \<and> pvname (self\<lparr>prefix := None\<rparr>) attr = attr \<and>
    PV lib (self\<lparr>prefix := None\<rparr>) attr w =
      (case PV lib self attr w of (r, self', w') \<Rightarrow> (r, self'\<lparr>prefix := None\<rparr>, w')) \<and>
    put lib (self\<lparr>prefix := None\<rparr>) attr val wait_kw timeout_kw w =
      (case put lib self attr val wait_kw timeout_kw w of
         (r, self', w') \<Rightarrow> (r, self'\<lparr>prefix := None\<rparr>, w')) \<and>
    get lib (self\<lparr>prefix := None\<rparr>) attr as_string_kw w =
      (case get lib self attr as_string_kw w of
         (r, self', w') \<Rightarrow> (r, self'\<lparr>prefix := None\<rparr>, w')) \<and>
    run lib (self\<lparr>prefix := None\<rparr>) rqs w =
      (case run lib self rqs w of (out, self', w') \<Rightarrow> (out, self'\<lparr>prefix := None\<rparr>, w')) \<and>
    Device_init lib None attrs w =
      (case Device_init lib (Some []) attrs w of
         (Inl e, w') \<Rightarrow> (Inl e, w')
       | (Inr self', w') \<Rightarrow> (Inr (self'\<lparr>prefix := None\<rparr>), w'))"
proof -
  have "Device_init lib None attrs w =
      (case Device_init lib (Some []) attrs w of
         (Inl e, w') \<Rightarrow> (Inl e, w')
       | (Inr self', w') \<Rightarrow> (Inr (self'\<lparr>prefix := None\<rparr>), w'))"
  proof (cases attrs)
    case None
    then show ?thesis by (simp add: Device_init_def)
  next
    case (Some ps)
    have "preload lib (\<lparr>prefix = Some [], pvs = Map.empty\<rparr>\<lparr>prefix := None\<rparr>) ps w =
      (case preload lib \<lparr>prefix = Some [], pvs = Map.empty\<rparr> ps w of
         (Inl e, w') \<Rightarrow> (Inl e, w')
       | (Inr self', w') \<Rightarrow> (Inr (self'\<lparr>prefix := None\<rparr>), w'))"
      by (rule preload_empty_prefix) simp
    with Some show ?thesis by (simp add: Device_init_def)
  qed
  with assms show ?thesis
    by (simp add: pvname_def PV_empty_prefix put_empty_prefix get_empty_prefix run_empty_prefix)
qed

theorem empty_prefix_same_as_absent_witness:
  "prefix unprefixed = Some [] \<and>
   pvname unprefixed ''13IDC:m3.VAL'' = ''13IDC:m3.VAL'' \<and>
   pvname (unprefixed\<lparr>prefix := None\<rparr>) ''13IDC:m3.VAL'' = ''13IDC:m3.VAL'' \<and>
   put fake unprefixed ''13IDC:m3.VAL'' (Number 2) None None \<lparr>ext = 1, calls = []\<rparr> =
     (Inr (Number 1), unprefixed\<lparr>pvs := (pvs unprefixed)(''13IDC:m3.VAL'' \<mapsto> 1)\<rparr>,
      \<lparr>ext = 2, calls = [NewPV ''13IDC:m3.VAL'' (Inr 1),
         PutPV 1 (Number 2) False 10 (Inr (Number 1))]\<rparr>) \<and>
   put fake (unprefixed\<lparr>prefix := None\<rparr>) ''13IDC:m3.VAL'' (Number 2) None None
       \<lparr>ext = 1, calls = []\<rparr> =
     (Inr (Number 1),
      unprefixed\<lparr>pvs := (pvs unprefixed)(''13IDC:m3.VAL'' \<mapsto> 1), prefix := None\<rparr>,
      \<lparr>ext = 2, calls = [NewPV ''13IDC:m3.VAL'' (Inr 1),
         PutPV 1 (Number 2) False 10 (Inr (Number 1))]\<rparr>) \<and>
   Device_init fake (Some []) (Some [''13IDC:m1.VAL'']) start =
     (Inr unprefixed, \<lparr>ext = 1, calls = [NewPV ''13IDC:m1.VAL'' (Inr 0)]\<rparr>) \<and>
   Device_init fake None (Some [''13IDC:m1.VAL'']) start =
     (Inr (unprefixed\<lparr>prefix := None\<rparr>), \<lparr>ext = 1, calls = [NewPV ''13IDC:m1.VAL'' (Inr 0)]\<rparr>)"
proof -
  have p: "prefix unprefixed = Some []" by (simp add: unprefixed_def)
  have wr: "put fake unprefixed ''13IDC:m3.VAL'' (Number 2) None None \<lparr>ext = 1, calls = []\<rparr> =
     (Inr (Number 1), unprefixed\<lparr>pvs := (pvs unprefixed)(''13IDC:m3.VAL'' \<mapsto> 1)\<rparr>,
      \<lparr>ext = 2, calls = [NewPV ''13IDC:m3.VAL'' (Inr 1),
         PutPV 1 (Number 2) False 10 (Inr (Number 1))]\<rparr>)"
    by (simp add: Let_def put_def PV_def pvname_def new_PV_def handle_put_def fake_def
        unprefixed_def)
  have init: "Device_init fake (Some []) (Some [''13IDC:m1.VAL'']) start =
     (Inr unprefixed, \<lparr>ext = 1, calls = [NewPV ''13IDC:m1.VAL'' (Inr 0)]\<rparr>)"
    by (simp add: Let_def Device_init_def PV_def pvname_def new_PV_def fake_def start_def
        unprefixed_def)
  note t = empty_prefix_same_as_absent [OF p, where lib = fake]
  from t [where attr = "''13IDC:m3.VAL''" and val = "Number 2" and wait_kw = None
      and timeout_kw = None and w = "\<lparr>ext = 1, calls = []\<rparr>"]
    t [where attrs = "Some [''13IDC:m1.VAL'']" and w = start]
    p wr init
  show ?thesis by simp
qed

end
